theory Spec2Isabelle
  imports Main "HOL-Library.Word"
begin

section \<open>The Controlino protocol (instrumentino/communication/controlino_protocol.py)\<close>

text \<open>
  The class \<open>ControlinoProtocol\<close> declares its incoming packets with the \<open>construct\<close>
  library and decodes them in \<open>handle_incoming_bytes\<close>. The declarations use
  \<open>Int8ub[:]\<close>, \<open>PrefixedArray(lengthfield=..., subcon=...)\<close> and
  \<open>Union(..., parsefrom='Int8')\<close>, which is the interface of construct 2.8; the parsers
  below follow that version: a \<open>Struct\<close> parses its fields in order on one stream, a
  failing field raises, and \<open>Enum\<close> without a default raises \<open>MappingError\<close> on a value
  that has no name.
\<close>

subsection \<open>Bytes, strings and exceptions\<close>

type_synonym byte = "8 word"
type_synonym bytes = "byte list"

text \<open>A Python \<open>str\<close> that was decoded from the wire is the list of its code points.\<close>

type_synonym str = "nat list"

definition str_of :: "string \<Rightarrow> str" where
  "str_of s = map of_char s"

text \<open>
  The exceptions that leave the parsers; the first four are subclasses of construct's
  \<open>ConstructError\<close>.
\<close>

datatype error =
    ConstError
  | MappingError
  | FieldError
  | RangeError
  | UnicodeDecodeError
  | AttributeError

subsection \<open>The class constants\<close>

definition DEFAULT_DATA_PACKET_RATE :: nat where
  "DEFAULT_DATA_PACKET_RATE = 10"

definition string_packets_queue_maxsize :: nat where
  "string_packets_queue_maxsize = 10"

definition CMD_PING :: string where
  "CMD_PING = ''PING''"

definition STRING_PACKET_TYPE_PONG :: string where
  "STRING_PACKET_TYPE_PONG = ''PONG''"

definition CONST_HEADER :: bytes where
  "CONST_HEADER = [0xA5, 0xA5, 0xA5, 0xA5]"

definition incoming_packet_types :: "(string \<times> nat) list" where
  "incoming_packet_types = [(''DATA_PACKET'', 0), (''STRING_PACKET'', 1)]"

subsection \<open>Primitive parsers of construct\<close>

text \<open>
  A parser takes the unread part of the stream and returns the parsed value with the rest
  of the stream, or the exception it raises.
\<close>

definition uint_be :: "bytes \<Rightarrow> nat" where
  "uint_be bs = foldl (\<lambda>acc b. acc * 256 + unat b) 0 bs"

definition read_stream :: "nat \<Rightarrow> bytes \<Rightarrow> error + (bytes \<times> bytes)" where
  "read_stream n bs =
     (if length bs < n then Inl FieldError else Inr (take n bs, drop n bs))"

text \<open>\<open>Int8ub\<close>, \<open>Int16ub\<close>, \<open>Int32ub\<close>, \<open>Int64ub\<close>: big-endian unsigned fields of 1, 2, 4, 8 bytes.\<close>

definition FormatField :: "nat \<Rightarrow> bytes \<Rightarrow> error + (nat \<times> bytes)" where
  "FormatField n bs =
     (case read_stream n bs of
        Inl e \<Rightarrow> Inl e
      | Inr (d, rest) \<Rightarrow> Inr (uint_be d, rest))"

definition Int8ub :: "bytes \<Rightarrow> error + (nat \<times> bytes)" where
  "Int8ub = FormatField 1"

definition Int16ub :: "bytes \<Rightarrow> error + (nat \<times> bytes)" where
  "Int16ub = FormatField 2"

definition Int32ub :: "bytes \<Rightarrow> error + (nat \<times> bytes)" where
  "Int32ub = FormatField 4"

definition Int64ub :: "bytes \<Rightarrow> error + (nat \<times> bytes)" where
  "Int64ub = FormatField 8"

text \<open>\<open>Const(value)\<close>: read as many bytes as the value has and compare.\<close>

definition Const :: "bytes \<Rightarrow> bytes \<Rightarrow> error + (bytes \<times> bytes)" where
  "Const v bs =
     (case read_stream (length v) bs of
        Inl e \<Rightarrow> Inl e
      | Inr (obj, rest) \<Rightarrow> if obj \<noteq> v then Inl ConstError else Inr (obj, rest))"

text \<open>
  \<open>Enum(Int8ub, **mapping)\<close>: the decoding dictionary maps each value back to its name;
  there is no default, so a value without a name raises.
\<close>

definition Enum_Int8ub :: "(string \<times> nat) list \<Rightarrow> bytes \<Rightarrow> error + (string \<times> bytes)" where
  "Enum_Int8ub mapping bs =
     (case Int8ub bs of
        Inl e \<Rightarrow> Inl e
      | Inr (obj, rest) \<Rightarrow>
          (case map_of (rev (map (\<lambda>(k, v). (v, k)) mapping)) obj of
             None \<Rightarrow> Inl MappingError
           | Some name \<Rightarrow> Inr (name, rest)))"

text \<open>
  \<open>subcon[:]\<close> on a fixed-width field is \<open>Range(0, sys.maxsize, subcon)\<close>: it parses elements
  until one fails and keeps what it has. All element fields used here have a positive width.
\<close>

function greedy_range :: "nat \<Rightarrow> bytes \<Rightarrow> nat list" where
  "greedy_range n bs =
     (if n = 0 then []
      else (case FormatField n bs of
              Inl e \<Rightarrow> []
            | Inr (obj, rest) \<Rightarrow> obj # greedy_range n (drop n bs)))"
  by pat_completeness auto
termination
  by (relation "measure (\<lambda>(n, bs). length bs)")
     (auto simp: FormatField_def read_stream_def split: if_splits)

declare greedy_range.simps [simp del]

text \<open>
  \<open>Prefixed(Int16ub, subcon[:])\<close>: a 2-byte byte count, then that many bytes, parsed by the
  range on a stream of their own.
\<close>

definition Prefixed_Int16ub :: "nat \<Rightarrow> bytes \<Rightarrow> error + (nat list \<times> bytes)" where
  "Prefixed_Int16ub n bs =
     (case Int16ub bs of
        Inl e \<Rightarrow> Inl e
      | Inr (len, rest) \<Rightarrow>
          (case read_stream len rest of
             Inl e \<Rightarrow> Inl e
           | Inr (d, rest') \<Rightarrow> Inr (greedy_range n d, rest')))"

text \<open>The elements of an array, one after the other.\<close>

fun array_of :: "nat \<Rightarrow> (bytes \<Rightarrow> error + ('a \<times> bytes)) \<Rightarrow> bytes \<Rightarrow> error + ('a list \<times> bytes)" where
  "array_of 0 subcon bs = Inr ([], bs)"
| "array_of (Suc n) subcon bs =
     (case subcon bs of
        Inl e \<Rightarrow> Inl e
      | Inr (obj, rest) \<Rightarrow>
          (case array_of n subcon rest of
             Inl e \<Rightarrow> Inl e
           | Inr (objs, rest') \<Rightarrow> Inr (obj # objs, rest')))"

text \<open>
  \<open>PrefixedArray(lengthfield=Int8ub, subcon)\<close>: the count field, then \<open>subcon[count]\<close>,
  a range that must hold exactly \<open>count\<close> elements. A count that cannot be read raises
  the \<open>FieldError\<close> of the count field; an element that is missing or does not parse
  raises \<open>RangeError\<close>.
\<close>

definition PrefixedArray_Int8ub ::
  "(bytes \<Rightarrow> error + ('a \<times> bytes)) \<Rightarrow> bytes \<Rightarrow> error + ('a list \<times> bytes)" where
  "PrefixedArray_Int8ub subcon bs =
     (case Int8ub bs of
        Inl e \<Rightarrow> Inl e
      | Inr (count, rest) \<Rightarrow>
          (case array_of count subcon rest of
             Inl e \<Rightarrow> Inl RangeError
           | Inr r \<Rightarrow> Inr r))"

text \<open>
  \<open>bytes.decode('utf8')\<close> with strict error handling: shortest forms only, no surrogates,
  nothing above U+10FFFF.
\<close>

definition continuation :: "byte \<Rightarrow> bool" where
  "continuation b \<longleftrightarrow> 0x80 \<le> b \<and> b \<le> 0xBF"

definition second_of_3 :: "byte \<Rightarrow> byte \<Rightarrow> bool" where
  "second_of_3 b0 b1 \<longleftrightarrow>
     (if b0 = 0xE0 then 0xA0 \<le> b1 \<and> b1 \<le> 0xBF
      else if b0 = 0xED then 0x80 \<le> b1 \<and> b1 \<le> 0x9F
      else continuation b1)"

definition second_of_4 :: "byte \<Rightarrow> byte \<Rightarrow> bool" where
  "second_of_4 b0 b1 \<longleftrightarrow>
     (if b0 = 0xF0 then 0x90 \<le> b1 \<and> b1 \<le> 0xBF
      else if b0 = 0xF4 then 0x80 \<le> b1 \<and> b1 \<le> 0x8F
      else continuation b1)"

fun utf8_decode :: "bytes \<Rightarrow> str option" where
  "utf8_decode [] = Some []"
| "utf8_decode (b0 # bs) =
     (if b0 < 0x80 then map_option (Cons (unat b0)) (utf8_decode bs)
      else if 0xC2 \<le> b0 \<and> b0 \<le> 0xDF then
        (case bs of
           b1 # r \<Rightarrow>
             if continuation b1
             then map_option (Cons ((unat b0 - 0xC0) * 64 + (unat b1 - 0x80))) (utf8_decode r)
             else None
         | _ \<Rightarrow> None)
      else if 0xE0 \<le> b0 \<and> b0 \<le> 0xEF then
        (case bs of
           b1 # b2 # r \<Rightarrow>
             if second_of_3 b0 b1 \<and> continuation b2
             then map_option
                    (Cons ((unat b0 - 0xE0) * 4096 + (unat b1 - 0x80) * 64 + (unat b2 - 0x80)))
                    (utf8_decode r)
             else None
         | _ \<Rightarrow> None)
      else if 0xF0 \<le> b0 \<and> b0 \<le> 0xF4 then
        (case bs of
           b1 # b2 # b3 # r \<Rightarrow>
             if second_of_4 b0 b1 \<and> continuation b2 \<and> continuation b3
             then map_option
                    (Cons ((unat b0 - 0xF0) * 262144 + (unat b1 - 0x80) * 4096
                           + (unat b2 - 0x80) * 64 + (unat b3 - 0x80)))
                    (utf8_decode r)
             else None
         | _ \<Rightarrow> None)
      else None)"

text \<open>\<open>GreedyString('utf8')\<close>: all the bytes that are left, decoded.\<close>

definition GreedyString_utf8 :: "bytes \<Rightarrow> error + (str \<times> bytes)" where
  "GreedyString_utf8 bs =
     (case utf8_decode bs of
        None \<Rightarrow> Inl UnicodeDecodeError
      | Some s \<Rightarrow> Inr (s, []))"

subsection \<open>The packet formats\<close>

text \<open>The containers the formats parse into, one record per \<open>Struct\<close>.\<close>

record header =
  const_header :: bytes
  type :: string
  packet_length :: nat

record data_header =
  relative_start_timestamp :: nat

record union_data =
  Int8 :: "nat list"
  Int16 :: "nat list"
  Int32 :: "nat list"
  Int64 :: "nat list"

record data_block =
  block_id :: nat
  data :: union_data

record packet =
  packet_header :: header

record data_packet = packet +
  data_packet_header :: data_header
  data_blocks :: "data_block list"

record string_packet = packet +
  string :: str

text \<open>
  \<open>packet_header_format\<close>: the marker, the type and the total length of the packet;
  \<open>sizeof()\<close> adds the sizes of the three fields.
\<close>

definition packet_header_format :: "bytes \<Rightarrow> error + (header \<times> bytes)" where
  "packet_header_format bs =
     (case Const CONST_HEADER bs of
        Inl e \<Rightarrow> Inl e
      | Inr (c, bs1) \<Rightarrow>
          (case Enum_Int8ub incoming_packet_types bs1 of
             Inl e \<Rightarrow> Inl e
           | Inr (t, bs2) \<Rightarrow>
               (case Int16ub bs2 of
                  Inl e \<Rightarrow> Inl e
                | Inr (l, bs3) \<Rightarrow>
                    Inr (\<lparr>const_header = c, type = t, packet_length = l\<rparr>, bs3))))"

definition packet_header_format_sizeof :: nat where
  "packet_header_format_sizeof = length CONST_HEADER + 1 + 2"

definition data_packet_header_format :: "bytes \<Rightarrow> error + (data_header \<times> bytes)" where
  "data_packet_header_format bs =
     (case Int32ub bs of
        Inl e \<Rightarrow> Inl e
      | Inr (t, rest) \<Rightarrow> Inr (\<lparr>relative_start_timestamp = t\<rparr>, rest))"

text \<open>
  The \<open>Union\<close> of a data block parses each of its four members from the same position and
  keeps all four results; \<open>parsefrom='Int8'\<close> leaves the stream where the first member
  stopped.
\<close>

definition data_union :: "bytes \<Rightarrow> error + (union_data \<times> bytes)" where
  "data_union bs =
     (case Prefixed_Int16ub 1 bs of
        Inl e \<Rightarrow> Inl e
      | Inr (i8, after8) \<Rightarrow>
          (case Prefixed_Int16ub 2 bs of
             Inl e \<Rightarrow> Inl e
           | Inr (i16, after16) \<Rightarrow>
               (case Prefixed_Int16ub 4 bs of
                  Inl e \<Rightarrow> Inl e
                | Inr (i32, after32) \<Rightarrow>
                    (case Prefixed_Int16ub 8 bs of
                       Inl e \<Rightarrow> Inl e
                     | Inr (i64, after64) \<Rightarrow>
                         Inr (\<lparr>Int8 = i8, Int16 = i16, Int32 = i32, Int64 = i64\<rparr>, after8)))))"

definition data_packet_data_block_format :: "bytes \<Rightarrow> error + (data_block \<times> bytes)" where
  "data_packet_data_block_format bs =
     (case Int8ub bs of
        Inl e \<Rightarrow> Inl e
      | Inr (i, rest) \<Rightarrow>
          (case data_union rest of
             Inl e \<Rightarrow> Inl e
           | Inr (d, rest') \<Rightarrow> Inr (\<lparr>block_id = i, data = d\<rparr>, rest')))"

definition data_packet_format :: "bytes \<Rightarrow> error + (data_packet \<times> bytes)" where
  "data_packet_format bs =
     (case packet_header_format bs of
        Inl e \<Rightarrow> Inl e
      | Inr (h, bs1) \<Rightarrow>
          (case data_packet_header_format bs1 of
             Inl e \<Rightarrow> Inl e
           | Inr (dh, bs2) \<Rightarrow>
               (case PrefixedArray_Int8ub data_packet_data_block_format bs2 of
                  Inl e \<Rightarrow> Inl e
                | Inr (blocks, bs3) \<Rightarrow>
                    Inr (\<lparr>packet_header = h, data_packet_header = dh, data_blocks = blocks\<rparr>,
                         bs3))))"

definition string_packet_format :: "bytes \<Rightarrow> error + (string_packet \<times> bytes)" where
  "string_packet_format bs =
     (case packet_header_format bs of
        Inl e \<Rightarrow> Inl e
      | Inr (h, bs1) \<Rightarrow>
          (case GreedyString_utf8 bs1 of
             Inl e \<Rightarrow> Inl e
           | Inr (s, bs2) \<Rightarrow> Inr (\<lparr>packet_header = h, string = s\<rparr>, bs2)))"

subsection \<open>The state the protocol works on\<close>

text \<open>
  The transport and the controller are not part of this file. Of the communication port the
  protocol reads \<open>MAX_BYTES_PER_READ\<close> and calls \<open>transmit\<close>; the packets handed to it are
  recorded. A controller without a port has \<open>comm_port = None\<close>.
\<close>

record comm =
  MAX_BYTES_PER_READ :: nat
  transmitted :: "string list"

text \<open>
  \<open>incoming_bytes\<close> is the bytearray the caller passes in and
  \<open>handle_incoming_bytes\<close> changes in place; \<open>updates\<close> lists the packets given to
  \<open>controller.update_input_channels\<close>, \<open>disconnects\<close> counts the calls of
  \<open>controller.disconnect\<close>; \<open>items\<close> and \<open>unfinished_tasks\<close> are the two
  attributes of \<open>string_packets_queue\<close> of the same names.
\<close>

record state =
  incoming_bytes :: bytes
  updates :: "data_packet list"
  items :: "string_packet list"
  unfinished_tasks :: nat
  disconnects :: nat
  comm_port :: "comm option"

text \<open>
  How a call ends: it returns, it raises, or it is suspended inside \<open>Queue.put\<close> because
  the queue is full (it resumes only when another thread takes an item out).
\<close>

datatype outcome = Returned | Raised error | Blocked

definition update_input_channels :: "data_packet \<Rightarrow> state \<Rightarrow> state" where
  "update_input_channels p s = s\<lparr>updates := updates s @ [p]\<rparr>"

definition disconnect :: "state \<Rightarrow> state" where
  "disconnect s = s\<lparr>disconnects := disconnects s + 1\<rparr>"

text \<open>\<open>queue.Queue(maxsize=10)\<close>: \<open>put\<close>, \<open>get\<close> with a timeout, and \<open>task_done\<close>.\<close>

definition queue_put :: "string_packet \<Rightarrow> state \<Rightarrow> state option" where
  "queue_put p s =
     (if length (items s) < string_packets_queue_maxsize
      then Some (s\<lparr>items := items s @ [p], unfinished_tasks := unfinished_tasks s + 1\<rparr>)
      else None)"

text \<open>
  \<open>get(timeout=...)\<close> is called on the queue as it stands when the wait ends: it takes the
  oldest item, or raises \<open>Empty\<close> (here \<open>None\<close>) when there is none.
\<close>

definition queue_get :: "state \<Rightarrow> (string_packet \<times> state) option" where
  "queue_get s =
     (case items s of
        [] \<Rightarrow> None
      | p # rest \<Rightarrow> Some (p, s\<lparr>items := rest\<rparr>))"

text \<open>\<open>task_done\<close> raises \<open>ValueError\<close> (here \<open>None\<close>) when no task is unfinished.\<close>

definition task_done :: "state \<Rightarrow> state option" where
  "task_done s =
     (if unfinished_tasks s = 0 then None
      else Some (s\<lparr>unfinished_tasks := unfinished_tasks s - 1\<rparr>))"

subsection \<open>handle\_incoming\_bytes\<close>

text \<open>\<open>bytearray.find(sub)\<close>: the lowest index where \<open>sub\<close> starts, \<open>None\<close> for -1.\<close>

fun bytes_find :: "bytes \<Rightarrow> bytes \<Rightarrow> nat option" where
  "bytes_find [] sub = (if sub = [] then Some 0 else None)"
| "bytes_find (b # bs) sub =
     (if take (length sub) (b # bs) = sub then Some 0
      else map_option Suc (bytes_find bs sub))"

text \<open>
  One pass through the body of \<open>while True\<close>. \<open>Inl\<close> ends the call with an outcome,
  \<open>Inr\<close> goes round again. The slice \<open>incoming_bytes[packet_start:packet_end]\<close> and the
  sum \<open>packet_start + packet_length\<close> use \<open>packet_start\<close> as \<open>find\<close> returned it, after the
  bytes before it have been deleted.
\<close>

definition iteration :: "state \<Rightarrow> (outcome \<times> state) + state" where
  "iteration s =
     (case bytes_find (incoming_bytes s) CONST_HEADER of
        None \<Rightarrow> Inl (Returned, s\<lparr>incoming_bytes := []\<rparr>)
      | Some packet_start \<Rightarrow>
          (let s1 = s\<lparr>incoming_bytes := drop packet_start (incoming_bytes s)\<rparr> in
           if length (incoming_bytes s1) < packet_header_format_sizeof then Inl (Returned, s1)
           else
             (case packet_header_format (incoming_bytes s1) of
                Inl e \<Rightarrow> Inl (Raised e, s1)
              | Inr (hdr, unread) \<Rightarrow>
                  (let packet_end = packet_start + packet_length hdr in
                   if length (incoming_bytes s1) < packet_end then Inl (Returned, s1)
                   else
                     (let packet = drop packet_start (take packet_end (incoming_bytes s1));
                          s2 = s1\<lparr>incoming_bytes := drop packet_end (incoming_bytes s1)\<rparr>
                      in
                      if type hdr = ''DATA_PACKET'' then
                        (case data_packet_format packet of
                           Inl e \<Rightarrow> Inl (Raised e, s2)
                         | Inr (p, unread') \<Rightarrow> Inr (update_input_channels p s2))
                      else if type hdr = ''STRING_PACKET'' then
                        (case string_packet_format packet of
                           Inl e \<Rightarrow> Inl (Raised e, s2)
                         | Inr (p, unread') \<Rightarrow>
                             (case queue_put p s2 of
                                None \<Rightarrow> Inl (Blocked, s2)
                              | Some s3 \<Rightarrow> Inr s3))
                      else
                        Inr (s2\<lparr>incoming_bytes := drop packet_end (incoming_bytes s2)\<rparr>))))))"

text \<open>
  Facts about the parsers that the loop relies on: where the marker was found, what a
  parsed header can hold, and how long a packet that parses must be.
\<close>

lemma bytes_find_Some:
  "bytes_find bs sub = Some i \<Longrightarrow>
     i + length sub \<le> length bs \<and> take (length sub) (drop i bs) = sub"
proof (induction bs arbitrary: i)
  case Nil
  then show ?case by (auto split: if_splits)
next
  case (Cons b bs)
  show ?case
  proof (cases "take (length sub) (b # bs) = sub")
    case True
    with Cons.prems have "i = 0" by simp
    moreover from True have "length (take (length sub) (b # bs)) = length sub" by simp
    then have "length sub \<le> length (b # bs)"
      by (simp del: length_take add: length_take min_def split: if_splits)
    ultimately show ?thesis using True by simp
  next
    case False
    with Cons.prems obtain j where "bytes_find bs sub = Some j" "i = Suc j" by auto
    with Cons.IH[of j] show ?thesis by simp
  qed
qed

lemma packet_header_format_Inr:
  assumes "packet_header_format bs = Inr (h, r)"
  shows "packet_header_format_sizeof \<le> length bs"
    and "type h = ''DATA_PACKET'' \<or> type h = ''STRING_PACKET''"
  using assms
  by (auto simp: packet_header_format_def Const_def read_stream_def Enum_Int8ub_def
      Int8ub_def Int16ub_def FormatField_def incoming_packet_types_def
      packet_header_format_sizeof_def CONST_HEADER_def
      split: sum.splits if_splits option.splits prod.splits)

lemma data_packet_format_Inr:
  "data_packet_format bs = Inr r \<Longrightarrow> packet_header_format_sizeof \<le> length bs"
  by (auto simp: data_packet_format_def dest: packet_header_format_Inr(1)
      split: sum.splits prod.splits)

lemma string_packet_format_Inr:
  "string_packet_format bs = Inr r \<Longrightarrow> packet_header_format_sizeof \<le> length bs"
  by (auto simp: string_packet_format_def dest: packet_header_format_Inr(1)
      split: sum.splits prod.splits)

lemma sizeof_pos: "0 < packet_header_format_sizeof"
  by (simp add: packet_header_format_sizeof_def)

lemma iteration_shrinks:
  assumes "iteration s = Inr s'"
  shows "length (incoming_bytes s') < length (incoming_bytes s)"
proof -
  from assms obtain i where f: "bytes_find (incoming_bytes s) CONST_HEADER = Some i"
    by (auto simp: iteration_def split: option.splits)
  let ?b = "drop i (incoming_bytes s)"
  from assms f have big: "\<not> length ?b < packet_header_format_sizeof"
    by (auto simp: iteration_def Let_def split: if_splits)
  from assms f big obtain h u where h: "packet_header_format ?b = Inr (h, u)"
    by (auto simp: iteration_def Let_def split: if_splits sum.splits)
  let ?e = "i + packet_length h"
  from assms f big h have e: "\<not> length ?b < ?e"
    by (auto simp: iteration_def Let_def split: if_splits)
  from packet_header_format_Inr(2)[OF h]
  have ty: "type h = ''DATA_PACKET'' \<or> type h = ''STRING_PACKET''" .
  have len: "length (incoming_bytes s') = length (drop ?e ?b)"
    and ok: "packet_header_format_sizeof \<le> length (drop i (take ?e ?b))"
    using assms f big h e ty
    by (auto simp: iteration_def Let_def update_input_channels_def queue_put_def
        dest: data_packet_format_Inr string_packet_format_Inr
        split: if_splits sum.splits option.splits)
  from ok sizeof_pos have "0 < ?e" by (cases "?e") auto
  with len e big sizeof_pos show ?thesis by auto
qed

text \<open>The loop \<open>while True\<close>: it runs the body until the body ends the call.\<close>

function decode_loop :: "state \<Rightarrow> outcome \<times> state" where
  "decode_loop s = (case iteration s of Inl r \<Rightarrow> r | Inr s' \<Rightarrow> decode_loop s')"
  by pat_completeness auto
termination
  by (relation "measure (\<lambda>s. length (incoming_bytes s))") (auto simp: iteration_shrinks)

declare decode_loop.simps [simp del]

text \<open>
  The whole method. The debugging print under \<open>DEBUG_RX\<close> changes nothing and is left
  out. Reading \<open>MAX_BYTES_PER_READ\<close> of a missing port raises \<open>AttributeError\<close>.
\<close>

definition handle_incoming_bytes :: "state \<Rightarrow> outcome \<times> state" where
  "handle_incoming_bytes s =
     (case comm_port s of
        None \<Rightarrow> (Raised AttributeError, s)
      | Some port \<Rightarrow>
          decode_loop
            (if length (incoming_bytes s) > MAX_BYTES_PER_READ port then disconnect s else s))"

subsection \<open>build\_command\_packet, transmit and ping\<close>

text \<open>
  The command and its parameters are formatted with \<open>'{}'.format(x)\<close>: a string stays as
  it is, an integer is written in decimal.
\<close>

datatype token = PyStr string | PyInt int

fun digits :: "nat \<Rightarrow> string" where
  "digits n =
     (if n < 10 then [char_of (48 + n)]
      else digits (n div 10) @ [char_of (48 + n mod 10)])"

declare digits.simps [simp del]

fun format_token :: "token \<Rightarrow> string" where
  "format_token (PyStr s) = s"
| "format_token (PyInt i) = (if i < 0 then CHR ''-'' # digits (nat (- i)) else digits (nat i))"

text \<open>\<open>sep.join(xs)\<close>.\<close>

fun join :: "string \<Rightarrow> string list \<Rightarrow> string" where
  "join sep [] = []"
| "join sep [x] = x"
| "join sep (x # y # ys) = x @ sep @ join sep (y # ys)"

definition build_command_packet :: "token \<Rightarrow> token list \<Rightarrow> string" where
  "build_command_packet command parameters =
     join '' '' (map format_token ([command] @ parameters)) @ [CHR 0x0D]"

definition transmit :: "string \<Rightarrow> state \<Rightarrow> state" where
  "transmit packet s =
     (case comm_port s of
        None \<Rightarrow> s
      | Some port \<Rightarrow> s\<lparr>comm_port := Some (port\<lparr>transmitted := transmitted port @ [packet]\<rparr>)\<rparr>)"

text \<open>
  \<open>ping\<close>. The call \<open>controller.comm_port.receive()\<close> and whatever reaches the queue while
  \<open>get\<close> waits belong to the transport; \<open>receive\<close> stands for both, so \<open>get\<close> sees the queue
  as it is when the wait ends. Calling \<open>receive\<close> on a missing port raises
  \<open>AttributeError\<close> outside the \<open>try\<close>. Inside the \<open>try\<close>, \<open>Empty\<close> from \<open>get\<close> and
  \<open>ValueError\<close> from \<open>task_done\<close> both end in \<open>return False\<close>; a parsed string packet is a
  container with two entries, so \<open>if reply_packet\<close> holds. \<open>search('string')\<close> returns the
  first entry whose key begins with \<open>string\<close>, looking into the header first, where no key
  does: it is the \<open>string\<close> entry of the packet.
\<close>

definition ping :: "(state \<Rightarrow> state) \<Rightarrow> state \<Rightarrow> (error + bool) \<times> state" where
  "ping receive s =
     (let packet = build_command_packet (PyStr CMD_PING) [];
          s1 = transmit packet s
      in
      case comm_port s1 of
        None \<Rightarrow> (Inl AttributeError, s1)
      | Some port \<Rightarrow>
          (let s2 = receive s1 in
           case queue_get s2 of
             None \<Rightarrow> (Inr False, s2)
           | Some (reply_packet, s3) \<Rightarrow>
               (case task_done s3 of
                  None \<Rightarrow> (Inr False, s3)
                | Some s4 \<Rightarrow>
                    (let reply_string = string reply_packet
                     in (Inr (reply_string = str_of STRING_PACKET_TYPE_PONG), s4)))))"

subsection \<open>Running the loop for a bounded number of passes\<close>

text \<open>
  \<open>loop_within n\<close> runs the body of the loop at most \<open>n\<close> times; \<open>None\<close> means the
  loop has not ended by then.
\<close>

fun loop_within :: "nat \<Rightarrow> state \<Rightarrow> (outcome \<times> state) option" where
  "loop_within 0 s = None"
| "loop_within (Suc n) s =
     (case iteration s of Inl r \<Rightarrow> Some r | Inr s' \<Rightarrow> loop_within n s')"

subsection \<open>The values of a block as the specification words them\<close>

text \<open>
  The bytes of a block grouped at width \<open>w\<close>, each group read as a big-endian unsigned
  integer; bytes that do not fill a last group are left out.
\<close>

definition grouped :: "nat \<Rightarrow> bytes \<Rightarrow> nat list" where
  "grouped w bs = map (\<lambda>k. uint_be (take w (drop (k * w) bs))) [0..<length bs div w]"

subsection \<open>The transport\<close>

text \<open>
  Modelled from the spec: the transport that owns the buffer is not in this file. It
  appends each chunk it reads to the connection's buffer and invokes
  \<open>handle_incoming_bytes\<close> on it; the bytes the call leaves in the buffer stay there for
  the next chunk.
\<close>

definition feed :: "bytes \<Rightarrow> state \<Rightarrow> state" where
  "feed chunk s = snd (handle_incoming_bytes (s\<lparr>incoming_bytes := incoming_bytes s @ chunk\<rparr>))"

definition feed_all :: "bytes list \<Rightarrow> state \<Rightarrow> state" where
  "feed_all chunks s = foldl (\<lambda>t chunk. feed chunk t) s chunks"

subsection \<open>Sample inputs\<close>

text \<open>
  A protocol that has dispatched nothing yet: its reply queue is empty, its port reads at
  most \<open>max_read\<close> bytes at a time and has transmitted nothing, and \<open>buf\<close> is the buffer
  it is called with.
\<close>

definition listening :: "nat \<Rightarrow> bytes \<Rightarrow> state" where
  "listening max_read buf =
     \<lparr>incoming_bytes = buf, updates = [], items = [], unfinished_tasks = 0, disconnects = 0,
      comm_port = Some \<lparr>MAX_BYTES_PER_READ = max_read, transmitted = []\<rparr>\<rparr>"

text \<open>A string packet with the body \<open>PONG\<close>: 7 bytes of header, 4 of text, length 11.\<close>

definition PONG_packet :: bytes where
  "PONG_packet = [0xA5, 0xA5, 0xA5, 0xA5, 0x01, 0x00, 0x0B, 0x50, 0x4F, 0x4E, 0x47]"

definition PONX_packet :: bytes where
  "PONX_packet = [0xA5, 0xA5, 0xA5, 0xA5, 0x01, 0x00, 0x0B, 0x50, 0x4F, 0x4E, 0x58]"

text \<open>A complete packet of 7 bytes whose type byte is 2.\<close>

definition unknown_type_packet :: bytes where
  "unknown_type_packet = [0xA5, 0xA5, 0xA5, 0xA5, 0x02, 0x00, 0x07]"

text \<open>A complete data packet of 8 bytes: one byte of body, too short for the timestamp.\<close>

definition short_data_packet :: bytes where
  "short_data_packet = [0xA5, 0xA5, 0xA5, 0xA5, 0x00, 0x00, 0x08, 0x00]"

text \<open>A complete string packet of 8 bytes whose body \<open>FF\<close> is not UTF-8.\<close>

definition bad_utf8_packet :: bytes where
  "bad_utf8_packet = [0xA5, 0xA5, 0xA5, 0xA5, 0x01, 0x00, 0x08, 0xFF]"

text \<open>
  The 16 bytes of the specification's data packet example, with the declared length 10
  as the specification has it, and with the declared length 16.
\<close>

definition data_example_length_10 :: bytes where
  "data_example_length_10 =
     [0xA5, 0xA5, 0xA5, 0xA5, 0x00, 0x00, 0x0A, 0x00, 0x00, 0x00, 0x00, 0x01, 0x05, 0x00, 0x01, 0x07]"

definition data_example_length_16 :: bytes where
  "data_example_length_16 =
     [0xA5, 0xA5, 0xA5, 0xA5, 0x00, 0x00, 0x10, 0x00, 0x00, 0x00, 0x00, 0x01, 0x05, 0x00, 0x01, 0x07]"

section \<open>Properties\<close>

subsection \<open>Command packets\<close>

lemma join_Cons: "join sep (x # xs) = x @ concat (map (\<lambda>y. sep @ y) xs)"
  by (induction xs arbitrary: x) auto

text \<open>
  C10. For every command name, \<open>build_command_packet\<close> with the empty parameter list is
  the name followed by one carriage return, with no space in between; with parameters it
  is the name, then each parameter after exactly one space, then one carriage return.
\<close>

theorem build_command_packet_joins:
  "build_command_packet (PyStr name) [] = name @ [CHR 0x0D] \<and>
   build_command_packet (PyStr name) parameters =
     name @ concat (map (\<lambda>p. CHR '' '' # format_token p) parameters) @ [CHR 0x0D]"
  by (simp add: build_command_packet_def join_Cons comp_def)

subsection \<open>Termination of the decode loop\<close>

lemma loop_within_enough:
  "length (incoming_bytes s) < n \<Longrightarrow> loop_within n s = Some (decode_loop s)"
proof (induction n arbitrary: s)
  case 0
  then show ?case by simp
next
  case (Suc n)
  show ?case
  proof (cases "iteration s")
    case (Inl r)
    then show ?thesis by (simp add: decode_loop.simps[of s])
  next
    case (Inr s')
    from iteration_shrinks[OF Inr] Suc.prems have "length (incoming_bytes s') < n" by simp
    from Suc.IH[OF this] Inr show ?thesis by (simp add: decode_loop.simps[of s])
  qed
qed

text \<open>
  C2 as stated fails: it is not the case that every pass through the loop body either
  returns or strictly shortens the buffer. On a complete string packet that declares
  length 0, the packet taken from the buffer is empty, parsing it raises \<open>FieldError\<close>,
  and the pass ends the call by that exception with the buffer exactly as it was.
\<close>

theorem zero_length_packet_counterexample:
  "iteration (listening 64 [0xA5, 0xA5, 0xA5, 0xA5, 0x01, 0x00, 0x00]) =
     Inl (Raised FieldError, listening 64 [0xA5, 0xA5, 0xA5, 0xA5, 0x01, 0x00, 0x00])
   \<and> handle_incoming_bytes (listening 64 [0xA5, 0xA5, 0xA5, 0xA5, 0x01, 0x00, 0x00]) =
     (Raised FieldError, listening 64 [0xA5, 0xA5, 0xA5, 0xA5, 0x01, 0x00, 0x00])"
  by code_simp

text \<open>
  A pass can also end without returning because the reply queue is full: of eleven
  \<open>PONG\<close> packets in one buffer, ten are enqueued and the call is suspended in \<open>put\<close> on
  the eleventh, which has already been removed from the buffer.
\<close>

lemma full_queue_suspends:
  "fst (handle_incoming_bytes (listening 256 (concat (replicate 11 PONG_packet)))) = Blocked
   \<and> length (items (snd (handle_incoming_bytes
                 (listening 256 (concat (replicate 11 PONG_packet)))))) = 10
   \<and> incoming_bytes (snd (handle_incoming_bytes
                 (listening 256 (concat (replicate 11 PONG_packet))))) = []"
  by code_simp

text \<open>
  C2, as the code has it. For every buffer the loop stops iterating: a pass through the
  body either returns, or raises a parser's exception to the caller, or is suspended in
  \<open>put\<close> on the full reply queue, or leaves a strictly shorter buffer to the next pass;
  so the loop makes at most one pass more than the buffer has bytes. It never runs
  forever, on a packet of declared length 0 or on any other input, but the call need not
  return.
\<close>

theorem decode_loop_passes_bounded:
  "((\<exists>s'. iteration s = Inl (Returned, s'))
    \<or> (\<exists>e s'. iteration s = Inl (Raised e, s'))
    \<or> (\<exists>s'. iteration s = Inl (Blocked, s'))
    \<or> (\<exists>s'. iteration s = Inr s'
              \<and> length (incoming_bytes s') < length (incoming_bytes s)))
   \<and> loop_within (Suc (length (incoming_bytes s))) s = Some (decode_loop s)"
proof -
  have bounded: "loop_within (Suc (length (incoming_bytes s))) s = Some (decode_loop s)"
    by (rule loop_within_enough) simp
  have pass: "(\<exists>s'. iteration s = Inl (Returned, s'))
    \<or> (\<exists>e s'. iteration s = Inl (Raised e, s'))
    \<or> (\<exists>s'. iteration s = Inl (Blocked, s'))
    \<or> (\<exists>s'. iteration s = Inr s'
              \<and> length (incoming_bytes s') < length (incoming_bytes s))"
  proof (cases "iteration s")
    case (Inl r)
    obtain out t where r: "r = (out, t)" by (cases r)
    show ?thesis using Inl r by (cases out) simp_all
  next
    case (Inr s')
    with iteration_shrinks[OF Inr] show ?thesis by simp
  qed
  from pass bounded show ?thesis by (rule conjI)
qed

subsection \<open>An oversized chunk\<close>







subsection \<open>A malformed packet\<close>

lemma packet_header_format_find:
  assumes "packet_header_format bs = Inr (h, r)"
  shows "bytes_find bs CONST_HEADER = Some 0"
proof -
  from assms have "take (length CONST_HEADER) bs = CONST_HEADER" "bs \<noteq> []"
    by (auto simp: packet_header_format_def Const_def read_stream_def CONST_HEADER_def
        split: sum.splits if_splits prod.splits)
  then show ?thesis by (cases bs) auto
qed

text \<open>
  C3 as stated fails: no exception would leave \<open>handle_incoming_bytes\<close>, and the
  packets after a malformed one would be decoded in the same call. A data packet of 8
  bytes, too short for its timestamp, is followed by a \<open>PONG\<close> packet: the call raises
  \<open>FieldError\<close>, the reply queue stays empty, and the \<open>PONG\<close> packet is still in the
  buffer.
\<close>

theorem malformed_data_packet_counterexample:
  "handle_incoming_bytes (listening 64 (short_data_packet @ PONG_packet)) =
     (Raised FieldError, listening 64 PONG_packet)"
  by code_simp

text \<open>
  C3, as the code has it. When the buffer begins with a complete packet of a known type
  whose body does not parse, \<open>handle_incoming_bytes\<close> raises the parser's exception to its
  caller. By then the packet has been removed from the buffer and nothing has been
  dispatched for it; the bytes after it are not decoded in this call and stay in the
  buffer.
\<close>

theorem malformed_packet_raises:
  assumes "comm_port s = Some port"
      and "length (incoming_bytes s) \<le> MAX_BYTES_PER_READ port"
      and "packet_header_format (incoming_bytes s) = Inr (h, unread)"
      and "packet_length h \<le> length (incoming_bytes s)"
      and "(type h = ''DATA_PACKET'' \<and>
              data_packet_format (take (packet_length h) (incoming_bytes s)) = Inl e)
         \<or> (type h = ''STRING_PACKET'' \<and>
              string_packet_format (take (packet_length h) (incoming_bytes s)) = Inl e)"
  shows "handle_incoming_bytes s =
           (Raised e, s\<lparr>incoming_bytes := drop (packet_length h) (incoming_bytes s)\<rparr>)"
proof -
  from packet_header_format_find[OF assms(3)]
  have f: "bytes_find (incoming_bytes s) CONST_HEADER = Some 0" .
  from packet_header_format_Inr(1)[OF assms(3)]
  have big: "\<not> length (incoming_bytes s) < packet_header_format_sizeof" by simp
  have "iteration s =
          Inl (Raised e, s\<lparr>incoming_bytes := drop (packet_length h) (incoming_bytes s)\<rparr>)"
    using f big assms(3,4,5) by (auto simp: iteration_def Let_def)
  then have "decode_loop s =
          (Raised e, s\<lparr>incoming_bytes := drop (packet_length h) (incoming_bytes s)\<rparr>)"
    by (simp add: decode_loop.simps[of s])
  with assms(1,2) show ?thesis by (simp add: handle_incoming_bytes_def)
qed

text \<open>
  C3, as the code has it, on a string packet whose body is not UTF-8, followed by a
  \<open>PONG\<close> packet.
\<close>

theorem malformed_packet_raises_witness:
  "comm_port (listening 64 (bad_utf8_packet @ PONG_packet))
     = Some \<lparr>MAX_BYTES_PER_READ = 64, transmitted = []\<rparr>
   \<and> packet_header_format (bad_utf8_packet @ PONG_packet)
       = Inr (\<lparr>const_header = CONST_HEADER, type = ''STRING_PACKET'', packet_length = 8\<rparr>,
              [0xFF] @ PONG_packet)
   \<and> string_packet_format (take 8 (bad_utf8_packet @ PONG_packet)) = Inl UnicodeDecodeError
   \<and> handle_incoming_bytes (listening 64 (bad_utf8_packet @ PONG_packet))
       = (Raised UnicodeDecodeError, listening 64 PONG_packet)"
proof -
  let ?s = "listening 64 (bad_utf8_packet @ PONG_packet)"
  let ?h = "\<lparr>const_header = CONST_HEADER, type = ''STRING_PACKET'', packet_length = 8\<rparr>"
  have port: "comm_port ?s = Some \<lparr>MAX_BYTES_PER_READ = 64, transmitted = []\<rparr>"
    by (simp add: listening_def)
  have fits: "length (incoming_bytes ?s)
                \<le> MAX_BYTES_PER_READ \<lparr>MAX_BYTES_PER_READ = 64, transmitted = []\<rparr>"
    by (simp add: listening_def bad_utf8_packet_def PONG_packet_def)
  have hdr: "packet_header_format (incoming_bytes ?s) = Inr (?h, [0xFF] @ PONG_packet)"
    by code_simp
  have whole: "packet_length ?h \<le> length (incoming_bytes ?s)"
    by (simp add: listening_def bad_utf8_packet_def)
  have bad: "string_packet_format (take (packet_length ?h) (incoming_bytes ?s))
               = Inl UnicodeDecodeError"
    by code_simp
  have rest: "?s\<lparr>incoming_bytes := drop (packet_length ?h) (incoming_bytes ?s)\<rparr>
                = listening 64 PONG_packet"
    by (simp add: listening_def bad_utf8_packet_def)
  from malformed_packet_raises[OF port fits hdr whole, of UnicodeDecodeError] bad
  have "handle_incoming_bytes ?s
          = (Raised UnicodeDecodeError,
             ?s\<lparr>incoming_bytes := drop (packet_length ?h) (incoming_bytes ?s)\<rparr>)"
    by simp
  then have "handle_incoming_bytes ?s
               = (Raised UnicodeDecodeError, listening 64 PONG_packet)"
    by (simp only: rest)
  with port hdr bad show ?thesis by (simp add: listening_def)
qed

subsection \<open>Garbage before a packet\<close>

text \<open>
  C1 at the input \<open>FF FF\<close> followed by a complete \<open>PONG\<close> packet. The garbage is
  discarded, but the packet is not decoded: the end of the packet is computed from the
  position the marker had before the garbage was deleted, the buffer looks two bytes too
  short, and the call returns with the packet left in the buffer and the queue empty.
\<close>

theorem garbage_then_packet_not_decoded:
  "handle_incoming_bytes (listening 64 ([0xFF, 0xFF] @ PONG_packet)) =
     (Returned, listening 64 PONG_packet)"
  by code_simp

text \<open>
  Called again on the buffer the first call left, with the marker now at position 0, the
  method decodes the packet and puts it on the queue.
\<close>

lemma packet_at_front_decoded:
  "fst (handle_incoming_bytes (listening 64 PONG_packet)) = Returned
   \<and> incoming_bytes (snd (handle_incoming_bytes (listening 64 PONG_packet))) = []
   \<and> map string (items (snd (handle_incoming_bytes (listening 64 PONG_packet))))
       = [str_of ''PONG'']"
  by code_simp

subsection \<open>Chunk boundaries\<close>

text \<open>
  C4 at the byte sequence \<open>FF\<close> followed by a \<open>PONG\<close> packet. Fed as the chunk \<open>FF\<close> and
  then the packet, the packet reaches the reply queue; fed as one chunk, nothing is
  enqueued and the packet stays in the buffer.
\<close>

theorem chunking_changes_dispatch:
  "map string (items (feed_all [[0xFF], PONG_packet] (listening 64 []))) = [str_of ''PONG'']
   \<and> items (feed_all [[0xFF] @ PONG_packet] (listening 64 [])) = []
   \<and> incoming_bytes (feed_all [[0xFF] @ PONG_packet] (listening 64 [])) = PONG_packet"
  by code_simp

subsection \<open>A packet of an unknown type\<close>

text \<open>
  C7 at a complete packet with type byte 2 followed by a \<open>PONG\<close> packet. Parsing the
  header raises \<open>MappingError\<close> before anything is removed: the buffer is unchanged and
  the second packet is not decoded.
\<close>

theorem unknown_type_raises:
  "handle_incoming_bytes (listening 64 (unknown_type_packet @ PONG_packet)) =
     (Raised MappingError, listening 64 (unknown_type_packet @ PONG_packet))"
  by code_simp

subsection \<open>The data packet example\<close>

text \<open>
  C5 as stated fails. The header is 7 bytes long (4 of marker, 1 of type, 2 of length), so
  the declared length 10 cuts the packet after three bytes of the timestamp: parsing
  raises \<open>FieldError\<close>, nothing is dispatched, and the other six bytes stay in the buffer.
\<close>

theorem data_example_length_10_counterexample:
  "handle_incoming_bytes (listening 64 data_example_length_10) =
     (Raised FieldError, listening 64 [0x00, 0x01, 0x05, 0x00, 0x01, 0x07])"
  by code_simp

text \<open>
  C5, as the code has it. With the declared length 16, which covers the 7 bytes of header
  and the 9 of body, the same 16 bytes decode to exactly one data packet: timestamp 0 and
  one block with id 5 whose 1-byte values are \<open>[7]\<close>.
\<close>

theorem data_example_length_16_decodes:
  "handle_incoming_bytes (listening 64 data_example_length_16) =
     (Returned,
      (listening 64 [])
        \<lparr>updates :=
           [\<lparr>packet_header =
               \<lparr>const_header = CONST_HEADER, type = ''DATA_PACKET'', packet_length = 16\<rparr>,
             data_packet_header = \<lparr>relative_start_timestamp = 0\<rparr>,
             data_blocks =
               [\<lparr>block_id = 5,
                 data = \<lparr>Int8 = [7], Int16 = [], Int32 = [], Int64 = []\<rparr>\<rparr>]\<rparr>]\<rparr>)"
  by code_simp

subsection \<open>Data blocks\<close>

lemma grouped_short: "length bs < w \<Longrightarrow> grouped w bs = []"
  by (simp add: grouped_def)

lemma grouped_step:
  assumes "0 < w" "w \<le> length bs"
  shows "grouped w bs = uint_be (take w bs) # grouped w (drop w bs)"
proof -
  from assms have d: "length bs div w = Suc ((length bs - w) div w)"
    by (simp add: le_div_geq)
  have "[0..<Suc ((length bs - w) div w)] = 0 # map Suc [0..<(length bs - w) div w]"
    by (simp add: upt_conv_Cons map_Suc_upt del: upt_Suc)
  then show ?thesis
    by (simp add: grouped_def d comp_def add.commute del: upt_Suc)
qed

lemma greedy_range_grouped: "0 < w \<Longrightarrow> greedy_range w bs = grouped w bs"
proof (induction w bs rule: greedy_range.induct)
  case (1 n bs)
  show ?case
  proof (cases "length bs < n")
    case True
    with 1 show ?thesis
      by (simp add: greedy_range.simps[of n bs] FormatField_def read_stream_def grouped_short)
  next
    case False
    with 1 have "greedy_range n (drop n bs) = grouped n (drop n bs)"
      by (simp add: FormatField_def read_stream_def)
    with False 1(2) show ?thesis
      by (simp add: greedy_range.simps[of n bs] FormatField_def read_stream_def grouped_step)
  qed
qed

lemma grouped_samples:
  "grouped 1 [0, 0, 0, 2 :: byte] = [0, 0, 0, 2]"
  "grouped 2 [0, 0, 0, 2 :: byte] = [0, 2]"
  "grouped 4 [0, 0, 0, 2 :: byte] = [2]"
  "grouped 8 [0, 0, 0, 2 :: byte] = []"
  by code_simp+

text \<open>
  C6 as stated fails: a block carries no element width, and the decoded block has no
  single list of values. The block with id 5 and the two bytes \<open>01 02\<close> decodes to the
  1-byte values \<open>[1, 2]\<close> and the 2-byte value \<open>[258]\<close> side by side.
\<close>

theorem data_block_two_widths_counterexample:
  "data_packet_data_block_format [0x05, 0x00, 0x02, 0x01, 0x02] =
     Inr (\<lparr>block_id = 5,
           data = \<lparr>Int8 = [1, 2], Int16 = [258], Int32 = [], Int64 = []\<rparr>\<rparr>, [])"
  by code_simp

text \<open>
  C6, as the code has it. Decoding a block reads a 1-byte id and a 2-byte big-endian byte
  count, takes that many bytes, and keeps them grouped at each of the four widths: the
  decoded block holds their values as 1-, 2-, 4- and 8-byte big-endian unsigned integers.
\<close>

theorem data_block_keeps_every_width:
  assumes "length payload = unat hi * 256 + unat lo"
  shows "data_packet_data_block_format (i # hi # lo # payload @ rest) =
           Inr (\<lparr>block_id = unat i,
                 data = \<lparr>Int8 = grouped 1 payload, Int16 = grouped 2 payload,
                         Int32 = grouped 4 payload, Int64 = grouped 8 payload\<rparr>\<rparr>, rest)"
  using assms
  by (simp add: data_packet_data_block_format_def data_union_def Prefixed_Int16ub_def
      Int8ub_def Int16ub_def FormatField_def read_stream_def uint_be_def greedy_range_grouped)

text \<open>C6, as the code has it, on the block with id 9 and the bytes \<open>00 00 00 02\<close>.\<close>

theorem data_block_keeps_every_width_witness:
  "length [0, 0, 0, 2 :: byte] = unat (0 :: byte) * 256 + unat (4 :: byte) \<and>
   data_packet_data_block_format [9, 0, 4, 0, 0, 0, 2] =
     Inr (\<lparr>block_id = 9,
           data = \<lparr>Int8 = [0, 0, 0, 2], Int16 = [0, 2], Int32 = [2], Int64 = []\<rparr>\<rparr>, [])"
proof -
  have h: "length [0, 0, 0, 2 :: byte] = unat (0 :: byte) * 256 + unat (4 :: byte)" by simp
  from data_block_keeps_every_width[OF h, of 9 "[]"]
  have "data_packet_data_block_format [9, 0, 4, 0, 0, 0, 2] =
          Inr (\<lparr>block_id = 9,
                data = \<lparr>Int8 = grouped 1 [0, 0, 0, 2], Int16 = grouped 2 [0, 0, 0, 2],
                        Int32 = grouped 4 [0, 0, 0, 2], Int64 = grouped 8 [0, 0, 0, 2]\<rparr>\<rparr>, [])"
    by simp
  then show ?thesis unfolding grouped_samples using h by simp
qed

subsection \<open>ping\<close>

text \<open>
  C8. On a controller that has a port, with the queue's count of unfinished tasks
  covering its items: \<open>ping\<close> returns true exactly when \<open>get\<close> takes a packet out of the
  reply queue and its text is \<open>PONG\<close>; it returns false when the queue is still empty at
  the end of the wait, and when the packet it takes has another text; when it returns
  true the queue has lost exactly its oldest item.
\<close>

theorem ping_true_iff_pong:
  assumes "comm_port s = Some port"
      and "s2 = receive (transmit (build_command_packet (PyStr CMD_PING) []) s)"
      and "length (items s2) \<le> unfinished_tasks s2"
  shows "(fst (ping receive s) = Inr True \<longleftrightarrow>
            (\<exists>p rest. items s2 = p # rest \<and> string p = str_of STRING_PACKET_TYPE_PONG))
       \<and> (items s2 = [] \<longrightarrow> ping receive s = (Inr False, s2))
       \<and> (\<forall>p rest. items s2 = p # rest \<and> string p \<noteq> str_of STRING_PACKET_TYPE_PONG
             \<longrightarrow> fst (ping receive s) = Inr False \<and> items (snd (ping receive s)) = rest)
       \<and> (fst (ping receive s) = Inr True \<longrightarrow>
             items s2 \<noteq> [] \<and> items (snd (ping receive s)) = tl (items s2))"
proof (cases "items s2")
  case Nil
  with assms show ?thesis
    by (simp add: ping_def transmit_def queue_get_def Let_def)
next
  case (Cons p rest)
  with assms show ?thesis
    by (simp add: ping_def transmit_def queue_get_def task_done_def Let_def)
qed

text \<open>
  C8 on a fresh protocol: the transport delivers a \<open>PONG\<close> packet while \<open>ping\<close> waits and
  \<open>ping\<close> returns true, leaving the queue empty; it delivers \<open>PONX\<close> and \<open>ping\<close> returns
  false; it delivers nothing and \<open>ping\<close> returns false.
\<close>

theorem ping_true_iff_pong_witness:
  "comm_port (listening 64 []) = Some \<lparr>MAX_BYTES_PER_READ = 64, transmitted = []\<rparr>
   \<and> length (items (feed PONG_packet
                (transmit (build_command_packet (PyStr CMD_PING) []) (listening 64 []))))
      \<le> unfinished_tasks (feed PONG_packet
                (transmit (build_command_packet (PyStr CMD_PING) []) (listening 64 [])))
   \<and> fst (ping (feed PONG_packet) (listening 64 [])) = Inr True
   \<and> items (snd (ping (feed PONG_packet) (listening 64 []))) = []
   \<and> fst (ping (feed PONX_packet) (listening 64 [])) = Inr False
   \<and> ping id (listening 64 []) =
       (Inr False, transmit (build_command_packet (PyStr CMD_PING) []) (listening 64 []))"
proof -
  let ?s = "listening 64 []"
  let ?t = "transmit (build_command_packet (PyStr CMD_PING) []) ?s"
  have port: "comm_port ?s = Some \<lparr>MAX_BYTES_PER_READ = 64, transmitted = []\<rparr>"
    by (simp add: listening_def)
  have pong: "map string (items (feed PONG_packet ?t)) = [str_of STRING_PACKET_TYPE_PONG]"
    "unfinished_tasks (feed PONG_packet ?t) = 1"
    by code_simp+
  have ponx: "map string (items (feed PONX_packet ?t)) = [str_of ''PONX'']"
    "unfinished_tasks (feed PONX_packet ?t) = 1"
    by code_simp+
  have none: "items (id ?t) = []" "unfinished_tasks (id ?t) = 0"
    by code_simp+
  have ne: "str_of ''PONX'' \<noteq> str_of STRING_PACKET_TYPE_PONG" by code_simp
  from pong(1) obtain p where p: "items (feed PONG_packet ?t) = [p]"
    "string p = str_of STRING_PACKET_TYPE_PONG"
    by auto
  from ponx(1) obtain x where x: "items (feed PONX_packet ?t) = [x]"
    "string x = str_of ''PONX''"
    by auto
  from ping_true_iff_pong[OF port refl, of "feed PONG_packet"] pong p
  have 1: "fst (ping (feed PONG_packet) ?s) = Inr True"
    "items (snd (ping (feed PONG_packet) ?s)) = []"
    by simp_all
  from ping_true_iff_pong[OF port refl, of "feed PONX_packet"] ponx x ne
  have 2: "fst (ping (feed PONX_packet) ?s) = Inr False"
    by simp
  from ping_true_iff_pong[OF port refl, of id] none
  have 3: "ping id ?s = (Inr False, ?t)" by simp
  from port pong 1 2 3 p show ?thesis by simp
qed

end
